theory Spec2Isabelle
  imports Main "HOL-Library.Char_ord" "HOL-Library.List_Lexorder"
begin

section \<open>Request model (parser/types.hpp)\<close>

datatype Method = Get | Post | Head | Put | Delete | Options | Trace | Connect | Patch

datatype Version = Http10 | Http11

record RequestLine =
  http_method :: Method  \<comment> \<open>the member \<open>method\<close>\<close>
  uri :: string
  version :: Version

text \<open>
  \<open>Headers\<close> is a \<open>std::unordered_map<std::string, std::string>\<close>: a finite map with
  unique keys. Bytes are \<open>char\<close>s (8 bits), byte sequences are \<open>string\<close>s.
\<close>

type_synonym Headers = "string \<rightharpoonup> string"

record HttpRequest =
  request_line :: RequestLine
  headers :: Headers
  body :: string

datatype ParseError =
  InvalidMethod | InvalidUri | InvalidVersion | InvalidHeader | IncompleteRequest | MalformedRequest

text \<open>
  \<open>Parser<T>\<close> is a function from the input view to \<open>std::expected\<close> of a value and
  the remaining view; \<open>Inl\<close> is \<open>std::unexpected\<close>.
\<close>

type_synonym 'a Parser = "string \<Rightarrow> ParseError + ('a \<times> string)"

subsection \<open>Library functions on characters and string views\<close>

definition isspace :: "char \<Rightarrow> bool" where
  \<comment> \<open>\<open>std::isspace\<close> in the C locale: space, and \<open>\t \n \v \f \r\<close> (9 to 13).\<close>
  "isspace c = (c = CHR '' '' \<or> (9 \<le> (of_char c :: nat) \<and> (of_char c :: nat) \<le> 13))"

definition isdigit :: "char \<Rightarrow> bool" where
  \<comment> \<open>\<open>std::isdigit\<close>: the bytes \<open>'0'\<close> (48) to \<open>'9'\<close> (57).\<close>
  "isdigit c = (48 \<le> (of_char c :: nat) \<and> (of_char c :: nat) \<le> 57)"

definition CRLF :: string where
  "CRLF = [CHR 0x0D, CHR 0x0A]"

definition starts_with :: "string \<Rightarrow> string \<Rightarrow> bool" where
  \<comment> \<open>\<open>input.starts_with(target)\<close>\<close>
  "starts_with input target = (take (length target) input = target)"

fun find_char :: "char \<Rightarrow> string \<Rightarrow> nat option" where
  \<comment> \<open>\<open>input.find(ch)\<close>; \<open>None\<close> is \<open>npos\<close>\<close>
  "find_char ch [] = None"
| "find_char ch (c # cs) = (if c = ch then Some 0 else map_option Suc (find_char ch cs))"

fun find_str :: "string \<Rightarrow> string \<Rightarrow> nat option" where
  \<comment> \<open>\<open>input.find(target)\<close> for a non-empty target; \<open>None\<close> is \<open>npos\<close>\<close>
  "find_str target [] = (if target = [] then Some 0 else None)"
| "find_str target (c # cs) =
     (if starts_with (c # cs) target then Some 0 else map_option Suc (find_str target cs))"

section \<open>Combinator engine (parser/combinator.hpp)\<close>

definition one_char :: "char Parser" where
  "one_char input = (case input of [] \<Rightarrow> Inl IncompleteRequest | c # rest \<Rightarrow> Inr (c, rest))"

definition satisfy :: "(char \<Rightarrow> bool) \<Rightarrow> char Parser" where
  "satisfy predicate input =
     (case one_char input of
        Inl e \<Rightarrow> Inl e
      | Inr (ch, rest) \<Rightarrow> if predicate ch then Inr (ch, rest) else Inl MalformedRequest)"

definition string_p :: "string \<Rightarrow> string Parser" where
  \<comment> \<open>\<open>combinator::string(target)\<close>\<close>
  "string_p target input =
     (if starts_with input target then Inr (target, drop (length target) input)
      else Inl MalformedRequest)"

definition map_p :: "'a Parser \<Rightarrow> ('a \<Rightarrow> 'b) \<Rightarrow> 'b Parser" where
  \<comment> \<open>\<open>combinator::map(pa, f)\<close>\<close>
  "map_p pa f input =
     (case pa input of Inl e \<Rightarrow> Inl e | Inr (a, rest) \<Rightarrow> Inr (f a, rest))"

definition choice2 :: "'a Parser \<Rightarrow> 'a Parser \<Rightarrow> 'a Parser" where
  \<comment> \<open>the two-parser overload \<open>choice(p1, p2)\<close>: \<open>r = p1(input); if (r) return r;
      return p2(input);\<close>\<close>
  "choice2 p1 p2 input = (case p1 input of Inr r \<Rightarrow> Inr r | Inl e \<Rightarrow> p2 input)"

fun choice :: "'a Parser list \<Rightarrow> 'a Parser" where
  \<comment> \<open>the vector overload: the \<open>for\<close> loop over \<open>parsers\<close>, every iteration applied to
      the same \<open>input\<close>\<close>
  "choice [] input = Inl MalformedRequest"
| "choice (p # parsers) input =
     (case p input of Inr result \<Rightarrow> Inr result | Inl e \<Rightarrow> choice parsers input)"

section \<open>HTTP grammar layer (parser/http_parser.hpp)\<close>

definition parse_method :: "Method Parser" where
  "parse_method =
     choice [map_p (string_p ''GET'') (\<lambda>_. Get),
             map_p (string_p ''POST'') (\<lambda>_. Post),
             map_p (string_p ''HEAD'') (\<lambda>_. Head),
             map_p (string_p ''PUT'') (\<lambda>_. Put),
             map_p (string_p ''DELETE'') (\<lambda>_. Delete),
             map_p (string_p ''OPTIONS'') (\<lambda>_. Options),
             map_p (string_p ''TRACE'') (\<lambda>_. Trace),
             map_p (string_p ''CONNECT'') (\<lambda>_. Connect),
             map_p (string_p ''PATCH'') (\<lambda>_. Patch)]"

definition parse_uri :: "string Parser" where
  "parse_uri input =
     (let count = length (takeWhile (\<lambda>c. \<not> isspace c) input)
      in if count = 0 then Inl InvalidUri else Inr (take count input, drop count input))"

definition parse_version :: "Version Parser" where
  "parse_version =
     choice [map_p (string_p ''HTTP/1.0'') (\<lambda>_. Http10),
             map_p (string_p ''HTTP/1.1'') (\<lambda>_. Http11)]"

definition crlf :: "unit Parser" where
  "crlf = map_p (string_p CRLF) (\<lambda>_. ())"

definition sp :: "unit Parser" where
  "sp = map_p (string_p '' '') (\<lambda>_. ())"

definition parse_request_line :: "RequestLine Parser" where
  "parse_request_line input =
     (case parse_method input of Inl e \<Rightarrow> Inl e | Inr (m, rest1) \<Rightarrow>
     (case sp rest1 of Inl e \<Rightarrow> Inl e | Inr (sp1, rest2) \<Rightarrow>
     (case parse_uri rest2 of Inl e \<Rightarrow> Inl e | Inr (u, rest3) \<Rightarrow>
     (case sp rest3 of Inl e \<Rightarrow> Inl e | Inr (sp2, rest4) \<Rightarrow>
     (case parse_version rest4 of Inl e \<Rightarrow> Inl e | Inr (v, rest5) \<Rightarrow>
     (case crlf rest5 of Inl e \<Rightarrow> Inl e | Inr (c, rest6) \<Rightarrow>
        Inr (\<lparr>http_method = m, uri = u, version = v\<rparr>, rest6)))))))"

definition parse_header :: "(string \<times> string) Parser" where
  "parse_header input =
     (case find_char CHR '':'' input of
        None \<Rightarrow> Inl InvalidHeader
      | Some colon_pos \<Rightarrow>
          let key = take colon_pos input;
              rest = drop (colon_pos + 1) input;
              skipped = length (takeWhile (\<lambda>c. isspace c \<and> c \<noteq> CHR 0x0D) rest);
              rest = drop skipped rest
          in (case find_str CRLF rest of
                None \<Rightarrow> Inl InvalidHeader
              | Some crlf_pos \<Rightarrow>
                  Inr ((key, take crlf_pos rest), drop (crlf_pos + 2) rest)))"

definition umap_insert :: "'k \<times> 'v \<Rightarrow> ('k \<rightharpoonup> 'v) \<Rightarrow> ('k \<rightharpoonup> 'v)" where
  \<comment> \<open>\<open>std::unordered_map::insert(pair)\<close>: inserts only when no element with that key
      exists; an existing element is left as it is.\<close>
  "umap_insert kv m = (case m (fst kv) of None \<Rightarrow> m(fst kv \<mapsto> snd kv) | Some old \<Rightarrow> m)"

lemma find_char_bound: "find_char ch s = Some n \<Longrightarrow> n < length s"
  by (induction s arbitrary: n) (auto split: if_splits)

lemma parse_header_consumes:
  assumes "parse_header input = Inr (kv, rest)"
  shows "length rest < length input"
proof -
  from assms obtain colon_pos where c: "find_char CHR '':'' input = Some colon_pos"
    by (auto simp: parse_header_def split: option.splits)
  from find_char_bound [OF c] have "colon_pos < length input" .
  with assms c show ?thesis
    by (auto simp: parse_header_def Let_def split: option.splits)
qed

function parse_headers_loop :: "Headers \<Rightarrow> string \<Rightarrow> ParseError + (Headers \<times> string)" where
  \<comment> \<open>the \<open>while (true)\<close> loop of \<open>parse_headers\<close>, on the local variables
      \<open>headers\<close> and \<open>current_input\<close>\<close>
  "parse_headers_loop hdrs current_input =
     (if starts_with current_input CRLF then Inr (hdrs, drop 2 current_input)
      else (case parse_header current_input of
              Inl e \<Rightarrow> Inl e
            | Inr (header_pair, rest) \<Rightarrow> parse_headers_loop (umap_insert header_pair hdrs) rest))"
  by pat_completeness auto
termination
  by (relation "measure (\<lambda>(hdrs, current_input). length current_input)")
     (auto simp: parse_header_consumes)

declare parse_headers_loop.simps [simp del]

definition parse_headers :: "Headers Parser" where
  "parse_headers input = parse_headers_loop Map.empty input"

definition parse_http_request :: "string \<Rightarrow> ParseError + HttpRequest" where
  "parse_http_request input =
     (case parse_request_line input of Inl e \<Rightarrow> Inl e | Inr (rl, rest1) \<Rightarrow>
     (case parse_headers rest1 of Inl e \<Rightarrow> Inl e | Inr (hdrs, rest2) \<Rightarrow>
        Inr \<lparr>request_line = rl, headers = hdrs, body = rest2\<rparr>))"

text \<open>
  The header lines of a header block, in the order in which \<open>parse_headers\<close> reads them:
  the same loop, listing every pair \<open>parse_header\<close> returns instead of inserting it.
  It is what "the header block contains two header lines with the same name" refers to.
\<close>

function header_lines :: "string \<Rightarrow> ParseError + ((string \<times> string) list \<times> string)" where
  "header_lines current_input =
     (if starts_with current_input CRLF then Inr ([], drop 2 current_input)
      else (case parse_header current_input of
              Inl e \<Rightarrow> Inl e
            | Inr (header_pair, rest) \<Rightarrow>
                (case header_lines rest of
                   Inl e \<Rightarrow> Inl e
                 | Inr (lines, remainder) \<Rightarrow> Inr (header_pair # lines, remainder))))"
  by pat_completeness auto
termination
  by (relation "measure length") (auto simp: parse_header_consumes)

declare header_lines.simps [simp del]

subsection \<open>Derived accessors of \<open>HttpRequest\<close>\<close>

definition header :: "HttpRequest \<Rightarrow> string \<Rightarrow> string option" where
  "header req key = headers req key"

definition ULONG_MAX :: nat where
  \<comment> \<open>\<open>unsigned long\<close> (and \<open>size_t\<close>) of the LP64 targets the code is built for: 64 bits\<close>
  "ULONG_MAX = 2 ^ 64 - 1"

definition digit_val :: "char \<Rightarrow> nat" where
  "digit_val c = of_char c - 48"

definition decimal_value :: "string \<Rightarrow> nat" where
  \<comment> \<open>the natural number a string of decimal digits denotes\<close>
  "decimal_value s = foldl (\<lambda>acc c. 10 * acc + digit_val c) 0 s"

datatype stoul_error = invalid_argument | out_of_range

definition stoul :: "string \<Rightarrow> stoul_error + nat" where
  \<comment> \<open>\<open>std::stoul(s)\<close>, base 10, as \<open>strtoul\<close> reads it: leading white space, an optional
      sign, then the longest run of digits; \<open>invalid_argument\<close> is thrown when there is no
      digit, \<open>out_of_range\<close> when the digits exceed \<open>ULONG_MAX\<close>; a minus sign negates
      modulo \<open>ULONG_MAX + 1\<close>.\<close>
  "stoul s =
     (let s1 = dropWhile isspace s;
          neg = (s1 \<noteq> [] \<and> hd s1 = CHR ''-'');
          s2 = (if s1 \<noteq> [] \<and> (hd s1 = CHR ''-'' \<or> hd s1 = CHR ''+'') then tl s1 else s1);
          ds = takeWhile isdigit s2
      in if ds = [] then Inl invalid_argument
         else if decimal_value ds > ULONG_MAX then Inl out_of_range
         else Inr (if neg then (ULONG_MAX + 1 - decimal_value ds) mod (ULONG_MAX + 1)
                   else decimal_value ds))"

definition is_valid_number :: "string \<Rightarrow> bool" where
  "is_valid_number s = (case s of [] \<Rightarrow> False | c # _ \<Rightarrow> c \<noteq> CHR ''-'' \<and> list_all isdigit s)"

definition content_length :: "HttpRequest \<Rightarrow> nat" where
  "content_length req =
     (case header req ''Content-Length'' of
        None \<Rightarrow> 0
      | Some s \<Rightarrow>
          if \<not> is_valid_number s then 0
          else (case stoul s of Inl thrown \<Rightarrow> 0 | Inr n \<Rightarrow> n))"

section \<open>Responses and handlers (router/types.hpp)\<close>

text \<open>
  The fields \<open>headers\<close> and \<open>body\<close> of \<open>HttpResponse\<close> are named \<open>resp_headers\<close> and
  \<open>resp_body\<close>, the names \<open>headers\<close> and \<open>body\<close> being those of \<open>HttpRequest\<close>.
\<close>

record HttpResponse =
  status_code :: int
  status_text :: string
  resp_headers :: "string \<rightharpoonup> string"
  resp_body :: string

definition ok :: HttpResponse where
  "ok = \<lparr>status_code = 200, status_text = ''OK'', resp_headers = Map.empty, resp_body = []\<rparr>"

definition not_found :: HttpResponse where
  "not_found =
     \<lparr>status_code = 404, status_text = ''Not Found'', resp_headers = Map.empty, resp_body = []\<rparr>"

definition bad_request :: HttpResponse where
  "bad_request =
     \<lparr>status_code = 400, status_text = ''Bad Request'', resp_headers = Map.empty, resp_body = []\<rparr>"

definition internal_server_error :: HttpResponse where
  "internal_server_error =
     \<lparr>status_code = 500, status_text = ''Internal Server Error'', resp_headers = Map.empty,
      resp_body = []\<rparr>"

definition with_header :: "HttpResponse \<Rightarrow> string \<Rightarrow> string \<Rightarrow> HttpResponse" where
  \<comment> \<open>\<open>headers.insert({key, value})\<close>\<close>
  "with_header r key val = r\<lparr>resp_headers := umap_insert (key, val) (resp_headers r)\<rparr>"

definition with_body :: "HttpResponse \<Rightarrow> string \<Rightarrow> HttpResponse" where
  "with_body r b = r\<lparr>resp_body := b\<rparr>"

definition with_text :: "HttpResponse \<Rightarrow> string \<Rightarrow> HttpResponse" where
  \<comment> \<open>\<open>headers["Content-Type"] = "text/plain"\<close> assigns, whatever was there\<close>
  "with_text r text =
     r\<lparr>resp_body := text, resp_headers := (resp_headers r)(''Content-Type'' \<mapsto> ''text/plain'')\<rparr>"

definition with_html :: "HttpResponse \<Rightarrow> string \<Rightarrow> HttpResponse" where
  "with_html r html =
     r\<lparr>resp_body := html, resp_headers := (resp_headers r)(''Content-Type'' \<mapsto> ''text/html'')\<rparr>"

definition with_json :: "HttpResponse \<Rightarrow> string \<Rightarrow> HttpResponse" where
  "with_json r json =
     r\<lparr>resp_body := json,
       resp_headers := (resp_headers r)(''Content-Type'' \<mapsto> ''application/json'')\<rparr>"

text \<open>
  A \<open>Handler\<close> is a \<open>std::function<HttpResponse(const HttpRequest &)>\<close>: any callable. Calling
  it may change the state \<open>'w\<close> outside the router (what the callable captured, the output
  stream), and it either returns a response or throws. What is thrown is either an object
  derived from \<open>std::exception\<close>, of which only the text of \<open>what()\<close> is used, or a value of
  any other type.
\<close>

datatype thrown = std_exception string | other_value

datatype 'a outcome = Returns 'a | Throws thrown

type_synonym 'w Handler = "HttpRequest \<Rightarrow> 'w \<Rightarrow> 'w \<times> HttpResponse outcome"

record 'w RouteMatch =
  handler :: "'w Handler"
  params :: "string \<rightharpoonup> string"

section \<open>Path matcher (router/matcher.hpp)\<close>

subsection \<open>\<open>std::regex\<close>\<close>

text \<open>
  The constructor of \<open>PathPattern\<close> writes a regular expression as text and hands it to
  \<open>std::regex\<close>. Constructing a \<open>std::regex\<close> from a text either throws \<open>regex_error\<close>
  (\<open>None\<close>) or gives a compiled expression, of which the code uses \<open>std::regex_match\<close> only:
  applied to a path, it says whether the whole path matches and, if so, gives the
  sub-matches 1, 2, ... of the groups.
\<close>

type_synonym regex = "string \<Rightarrow> string list option"

type_synonym regex_lib = "string \<Rightarrow> regex option"

text \<open>
  \<open>route\<close>, \<open>find\<close> and the constructor are modelled for an arbitrary \<open>regex_lib\<close>. The
  library itself is modelled on the texts made of the anchors \<open>^\<close> and \<open>$\<close> around the
  groups \<open>([^/]+)\<close> and \<open>(.*)\<close>, the escapes of \<open>.\<close>, \<open>?\<close> and \<open>+\<close>, and characters that
  are no operator of the ECMAScript grammar: \<open>fragment_items\<close> reads such a text as a
  sequence of items, and \<open>rx_run\<close> matches a path against the items. On every other
  text (a copied character is an operator: \<open>std::regex\<close> throws for some of them and
  gives the character its meaning as an operator for others), \<open>std_regex\<close> defers to its
  parameter \<open>other\<close>, which stands for what \<open>std::regex\<close> does there.
\<close>

datatype rx_item =
    RLit char  \<comment> \<open>one given character\<close>
  | RSeg       \<comment> \<open>\<open>([^/]+)\<close>: a group of one or more characters other than \<open>/\<close>\<close>
  | RRest      \<comment> \<open>\<open>(.*)\<close>: a group of any number of characters other than line terminators\<close>

definition rx_special :: string where
  "rx_special = CHR 0x5C # ''^$.*+?()[]{}|''"

function rx_parse :: "string \<Rightarrow> rx_item list option" where
  "rx_parse s =
     (if s = [] then Some []
      else if starts_with s ''([^/]+)'' then map_option ((#) RSeg) (rx_parse (drop 7 s))
      else if starts_with s ''(.*)'' then map_option ((#) RRest) (rx_parse (drop 4 s))
      else if hd s = CHR 0x5C then
        (if tl s \<noteq> [] \<and> hd (tl s) \<in> set ''.?+''
         then map_option ((#) (RLit (hd (tl s)))) (rx_parse (drop 2 s))
         else None)
      else if hd s \<in> set rx_special then None
      else map_option ((#) (RLit (hd s))) (rx_parse (tl s)))"
  by pat_completeness auto
termination
  by (relation "measure length") (auto simp: neq_Nil_conv)

declare rx_parse.simps [simp del]

definition fragment_items :: "string \<Rightarrow> rx_item list option" where
  "fragment_items text =
     (case text of
        [] \<Rightarrow> None
      | c # rest \<Rightarrow>
          if c = CHR ''^'' \<and> rest \<noteq> [] \<and> last rest = CHR ''$'' then rx_parse (butlast rest)
          else None)"

definition line_terminator :: "char \<Rightarrow> bool" where
  "line_terminator c = (c = CHR 0x0A \<or> c = CHR 0x0D)"

fun greedy :: "(string \<Rightarrow> string list option) \<Rightarrow> string \<Rightarrow> nat \<Rightarrow> nat \<Rightarrow> string list option" where
  \<comment> \<open>a greedy group followed by the continuation \<open>k\<close>: the group takes the first \<open>n\<close>
      characters of \<open>s\<close>, then one fewer, and so on down to \<open>lo\<close>, until \<open>k\<close> accepts the
      rest; the captured text comes first in the result\<close>
  "greedy k s 0 lo = (if 0 < lo then None else map_option ((#) []) (k s))"
| "greedy k s (Suc n) lo =
     (if Suc n < lo then None
      else (case k (drop (Suc n) s) of
              Some caps \<Rightarrow> Some (take (Suc n) s # caps)
            | None \<Rightarrow> greedy k s n lo))"

primrec rx_run :: "rx_item list \<Rightarrow> string \<Rightarrow> string list option" where
  \<comment> \<open>\<open>std::regex_match\<close>: the whole of the text has to match; the result lists the
      sub-matches 1, 2, ... of the groups\<close>
  "rx_run [] = (\<lambda>s. if s = [] then Some [] else None)"
| "rx_run (item # items) =
     (\<lambda>s. case item of
        RLit c \<Rightarrow> (case s of [] \<Rightarrow> None | x # xs \<Rightarrow> if x = c then rx_run items xs else None)
      | RSeg \<Rightarrow> greedy (rx_run items) s (length (takeWhile (\<lambda>c. c \<noteq> CHR ''/'') s)) 1
      | RRest \<Rightarrow> greedy (rx_run items) s (length (takeWhile (\<lambda>c. \<not> line_terminator c) s)) 0)"

definition std_regex :: "regex_lib \<Rightarrow> regex_lib" where
  "std_regex other text =
     (case fragment_items text of
        Some items \<Rightarrow> Some (rx_run items)
      | None \<Rightarrow> other text)"

subsection \<open>\<open>PathPattern\<close>\<close>

text \<open>
  The members \<open>pattern_\<close>, \<open>regex_\<close> and \<open>param_names_\<close> are the fields \<open>pp_pattern\<close>,
  \<open>pp_regex\<close> and \<open>pp_param_names\<close>.
\<close>

record PathPattern =
  pp_pattern :: string
  pp_regex :: regex
  pp_param_names :: "string list"

record compile_state =
  regex_str :: string
  current_segment :: string
  in_param :: bool
  param_names :: "string list"

fun compile_loop :: "string \<Rightarrow> compile_state \<Rightarrow> compile_state" where
  \<comment> \<open>the \<open>for\<close> loop of the constructor over the rest \<open>c # cs\<close> of the pattern;
      \<open>i == pattern.size() - 1\<close> is \<open>cs = []\<close>, and \<open>break\<close> ends the recursion\<close>
  "compile_loop [] st = st"
| "compile_loop (c # cs) st =
     (if c = CHR '':'' then compile_loop cs (st\<lparr>in_param := True, current_segment := []\<rparr>)
      else if c = CHR ''/'' \<or> cs = [] then
        (let st1 =
               (if in_param st then
                  (let seg = (if cs = [] \<and> c \<noteq> CHR ''/'' then current_segment st @ [c]
                              else current_segment st)
                   in st\<lparr>current_segment := seg,
                        param_names := param_names st @ [seg],
                        regex_str := regex_str st @ ''([^/]+)'',
                        in_param := False\<rparr>)
                else st)
         in if c = CHR ''/'' then compile_loop cs (st1\<lparr>regex_str := regex_str st1 @ ''/''\<rparr>)
            else if c = CHR ''*'' then
              st1\<lparr>param_names := param_names st1 @ [''wildcard''],
                  regex_str := regex_str st1 @ ''(.*)''\<rparr>
            else if in_param st1 then
              compile_loop cs (st1\<lparr>current_segment := current_segment st1 @ [c]\<rparr>)
            else
              compile_loop cs
                (st1\<lparr>regex_str :=
                       regex_str st1
                       @ (if c = CHR ''.'' \<or> c = CHR ''?'' \<or> c = CHR ''+'' then [CHR 0x5C] else [])
                       @ [c]\<rparr>))
      else compile_loop cs st)"

definition compile_pattern :: "string \<Rightarrow> compile_state" where
  \<comment> \<open>the constructor up to and including \<open>regex_str += "$"\<close>\<close>
  "compile_pattern pattern =
     (let st = compile_loop pattern
                 \<lparr>regex_str = ''^'', current_segment = [], in_param = False, param_names = []\<rparr>
      in st\<lparr>regex_str := regex_str st @ ''$''\<rparr>)"

definition PathPattern :: "regex_lib \<Rightarrow> string \<Rightarrow> PathPattern option" where
  \<comment> \<open>\<open>PathPattern(pattern)\<close>, with the library \<open>lib\<close> for \<open>std::regex\<close>; \<open>None\<close> when
      \<open>std::regex(regex_str)\<close> throws \<open>regex_error\<close>, which leaves the constructor\<close>
  "PathPattern lib pattern =
     (let st = compile_pattern pattern
      in case lib (regex_str st) of
           None \<Rightarrow> None
         | Some rx \<Rightarrow> Some \<lparr>pp_pattern = pattern, pp_regex = rx, pp_param_names = param_names st\<rparr>)"

definition match :: "PathPattern \<Rightarrow> string \<Rightarrow> (string \<rightharpoonup> string) option" where
  \<comment> \<open>\<open>params[param_names_[i - 1]] = matches[i]\<close> for the groups \<open>i\<close> that have a name\<close>
  "match pp path =
     (case pp_regex pp path of
        None \<Rightarrow> None
      | Some caps \<Rightarrow>
          Some (foldl (\<lambda>ps (name, cap). ps(name \<mapsto> cap)) Map.empty (zip (pp_param_names pp) caps)))"

section \<open>Immutable router (router/router.hpp)\<close>

type_synonym RouteKey = "Method \<times> string"

fun method_index :: "Method \<Rightarrow> nat" where
  \<comment> \<open>the value of the enumerator, which orders \<open>Method\<close>\<close>
  "method_index Get = 0"
| "method_index Post = 1"
| "method_index Head = 2"
| "method_index Put = 3"
| "method_index Delete = 4"
| "method_index Options = 5"
| "method_index Trace = 6"
| "method_index Connect = 7"
| "method_index Patch = 8"

definition key_less :: "RouteKey \<Rightarrow> RouteKey \<Rightarrow> bool" where
  \<comment> \<open>\<open>operator<\<close> of \<open>std::pair<Method, std::string>\<close>: the method first, then the
      pattern strings byte by byte, a proper prefix being smaller\<close>
  "key_less k1 k2 =
     (method_index (fst k1) < method_index (fst k2)
      \<or> (fst k1 = fst k2 \<and> snd k1 < snd k2))"

text \<open>
  \<open>RouteTable\<close> is a \<open>std::map\<close>: its entries are kept, and iterated, in increasing order
  of their keys, and a key occurs once.
\<close>

type_synonym 'w RouteTable = "(RouteKey \<times> (PathPattern \<times> 'w Handler)) list"

fun table_assign ::
  "RouteKey \<Rightarrow> PathPattern \<times> 'w Handler \<Rightarrow> 'w RouteTable \<Rightarrow> 'w RouteTable" where
  \<comment> \<open>\<open>table[key] = value\<close>\<close>
  "table_assign key val [] = [(key, val)]"
| "table_assign key val ((k, v) # table) =
     (if key_less key k then (key, val) # (k, v) # table
      else if key = k then (key, val) # table
      else (k, v) # table_assign key val table)"

text \<open>
  A \<open>Router\<close> holds a \<open>std::shared_ptr<const RouteTable>\<close>. The tables live in a store, one
  cell for each \<open>make_shared\<close>, and the pointer is the index of a cell. A cell stays
  alive as long as a router points at it, so cells are never removed.
\<close>

type_synonym 'w store = "'w RouteTable list"

record Router =
  routes :: nat  \<comment> \<open>the member \<open>routes_\<close>\<close>

definition live :: "'w store \<Rightarrow> Router \<Rightarrow> bool" where
  "live st r = (routes r < length st)"

definition Router :: "'w store \<Rightarrow> 'w store \<times> Router" where
  \<comment> \<open>\<open>Router()\<close>: a new cell that holds the empty table\<close>
  "Router st = (st @ [[]], \<lparr>routes = length st\<rparr>)"

definition route ::
  "regex_lib \<Rightarrow> 'w store \<Rightarrow> Router \<Rightarrow> Method \<Rightarrow> string \<Rightarrow> 'w Handler
   \<Rightarrow> ('w store \<times> Router) option" where
  \<comment> \<open>\<open>new_routes\<close> is a new cell holding a copy of \<open>*routes_\<close>, in which the key is then
      assigned; \<open>None\<close> when \<open>PathPattern(pattern)\<close> throws \<open>regex_error\<close>: the exception
      leaves \<open>route\<close>, nothing is returned and the copy is dropped\<close>
  "route lib st r m pattern h =
     (case PathPattern lib pattern of
        None \<Rightarrow> None
      | Some pp \<Rightarrow>
          Some (st @ [table_assign (m, pattern) (pp, h) (st ! routes r)],
                \<lparr>routes = length st\<rparr>))"

definition get ::
  "regex_lib \<Rightarrow> 'w store \<Rightarrow> Router \<Rightarrow> string \<Rightarrow> 'w Handler \<Rightarrow> ('w store \<times> Router) option" where
  "get lib st r pattern h = route lib st r Get pattern h"

definition post ::
  "regex_lib \<Rightarrow> 'w store \<Rightarrow> Router \<Rightarrow> string \<Rightarrow> 'w Handler \<Rightarrow> ('w store \<times> Router) option" where
  "post lib st r pattern h = route lib st r Post pattern h"

definition put ::
  "regex_lib \<Rightarrow> 'w store \<Rightarrow> Router \<Rightarrow> string \<Rightarrow> 'w Handler \<Rightarrow> ('w store \<times> Router) option" where
  "put lib st r pattern h = route lib st r Put pattern h"

definition delete_route ::
  "regex_lib \<Rightarrow> 'w store \<Rightarrow> Router \<Rightarrow> string \<Rightarrow> 'w Handler \<Rightarrow> ('w store \<times> Router) option" where
  \<comment> \<open>the member function \<open>delete_\<close>\<close>
  "delete_route lib st r pattern h = route lib st r Delete pattern h"

fun find_loop :: "'w RouteTable \<Rightarrow> HttpRequest \<Rightarrow> 'w RouteMatch option" where
  \<comment> \<open>the \<open>for\<close> loop of \<open>find\<close> over the entries of the table, in the order of the map\<close>
  "find_loop [] req = None"
| "find_loop (((m, _), (pattern, h)) # table) req =
     (if m \<noteq> http_method (request_line req) then find_loop table req
      else (case match pattern (uri (request_line req)) of
              Some ps \<Rightarrow> Some \<lparr>handler = h, params = ps\<rparr>
            | None \<Rightarrow> find_loop table req))"

definition find_route :: "'w store \<Rightarrow> Router \<Rightarrow> HttpRequest \<Rightarrow> 'w RouteMatch option" where
  \<comment> \<open>the member function \<open>find\<close>\<close>
  "find_route st r req = find_loop (st ! routes r) req"

definition handle :: "'w store \<Rightarrow> Router \<Rightarrow> 'w Handler" where
  \<comment> \<open>\<open>catch (const std::exception &e)\<close> catches the objects derived from
      \<open>std::exception\<close>; any other thrown value leaves \<open>handle\<close>\<close>
  "handle st r req w =
     (case find_route st r req of
        None \<Rightarrow> (w, Returns (with_text not_found ''Route not found''))
      | Some m \<Rightarrow>
          (case handler m req w of
             (w', Returns response) \<Rightarrow> (w', Returns response)
           | (w', Throws (std_exception what)) \<Rightarrow>
               (w', Returns (with_text internal_server_error (''Handler error: '' @ what)))
           | (w', Throws other_value) \<Rightarrow> (w', Throws other_value)))"

section \<open>Middleware (router/middleware.hpp)\<close>

type_synonym 'w Middleware = "'w Handler \<Rightarrow> 'w Handler"

definition around ::
  "(HttpRequest \<Rightarrow> 'w \<Rightarrow> 'w) \<Rightarrow> (HttpRequest \<Rightarrow> HttpResponse \<Rightarrow> 'w \<Rightarrow> 'w) \<Rightarrow> 'w Middleware" where
  \<comment> \<open>the shape of \<open>logging\<close>: some effect before \<open>next(req)\<close>, some effect on the
      response that came back, which is then returned as it is; when \<open>next\<close> throws, the
      statements after the call are not reached\<close>
  "around pre_logic post_logic next req w =
     (case next req (pre_logic req w) of
        (w', Returns response) \<Rightarrow> (post_logic req response w', Returns response)
      | (w', Throws t) \<Rightarrow> (w', Throws t))"

function show_nat :: "nat \<Rightarrow> string" where
  \<comment> \<open>the decimal digits of a number, as \<open>operator<<\<close> writes them\<close>
  "show_nat n =
     (if n < 10 then [char_of (48 + n)] else show_nat (n div 10) @ [char_of (48 + n mod 10)])"
  by pat_completeness auto
termination
  by (relation "measure id") auto

declare show_nat.simps [simp del]

definition show_int :: "int \<Rightarrow> string" where
  \<comment> \<open>\<open>operator<<\<close> on an \<open>int\<close>\<close>
  "show_int i = (if i < 0 then ''-'' @ show_nat (nat (- i)) else show_nat (nat i))"

definition logging :: "string Middleware" where
  \<comment> \<open>the state is the text written to \<open>std::cout\<close> so far\<close>
  "logging =
     around
       (\<lambda>req out. out @ ''['' @ show_nat (method_index (http_method (request_line req))) @ '']''
                    @ uri (request_line req) @ [CHR 0x0A])
       (\<lambda>req response out. out @ '' -> '' @ show_int (status_code response) @ [CHR 0x0A])"

definition require_auth :: "(HttpRequest \<Rightarrow> bool) \<Rightarrow> 'w Middleware" where
  "require_auth check next req w =
     (if \<not> check req
      then (w, Returns (with_text
                          \<lparr>status_code = 401, status_text = ''Unauthorized'',
                           resp_headers = Map.empty, resp_body = []\<rparr>
                          ''Authentication required''))
      else next req w)"

definition cors :: "'w Middleware" where
  "cors next req w =
     (case next req w of
        (w', Returns response) \<Rightarrow>
          (w', Returns (with_header
                          (with_header response ''Access-Control-Allow-Origin'' ''*'')
                          ''Access-Control-Allow-Methods'' ''GET, POST, PUT, DELETE''))
      | (w', Throws t) \<Rightarrow> (w', Throws t))"

definition compose :: "'w Middleware list \<Rightarrow> 'w Handler \<Rightarrow> 'w Handler" where
  \<comment> \<open>\<open>std::accumulate\<close> from \<open>rbegin()\<close> to \<open>rend()\<close>, starting from \<open>final_handler\<close>, with
      the step \<open>[](Handler h, const Middleware& m) { return m(std::move(h)); }\<close>\<close>
  "compose middlewares final_handler = foldl (\<lambda>h m. m h) final_handler (rev middlewares)"

section \<open>Notions used in the statements\<close>

text \<open>
  The stores that \<open>Router()\<close> and \<open>route\<close> can produce, starting from the empty store,
  whatever \<open>std::regex\<close> does on the texts the constructor writes.
\<close>

inductive built :: "regex_lib \<Rightarrow> 'w store \<Rightarrow> bool" for lib :: regex_lib where
  empty: "built lib []"
| new_router: "built lib st \<Longrightarrow> built lib (fst (Router st))"
| new_route:
    "built lib st \<Longrightarrow> live st r \<Longrightarrow> route lib st r m pattern h = Some (st', r')
     \<Longrightarrow> built lib st'"

text \<open>
  An entry of the table matches a request when its method is the method of the request
  and its compiled pattern matches the URI of the request.
\<close>

definition entry_matches :: "HttpRequest \<Rightarrow> RouteKey \<times> PathPattern \<times> 'w Handler \<Rightarrow> bool" where
  "entry_matches req e =
     (fst (fst e) = http_method (request_line req)
      \<and> match (fst (snd e)) (uri (request_line req)) \<noteq> None)"

text \<open>The keys of a table increase strictly along its entries.\<close>

definition sorted_keys :: "'w RouteTable \<Rightarrow> bool" where
  "sorted_keys table = sorted_wrt key_less (map fst table)"

text \<open>
  Handlers and requests for the instances below: a handler that returns a given response,
  a handler that throws, and a request with a given method and URI and no header.
\<close>

definition returning :: "HttpResponse \<Rightarrow> 'w Handler" where
  "returning response req w = (w, Returns response)"

definition throwing :: "thrown \<Rightarrow> 'w Handler" where
  "throwing t req w = (w, Throws t)"

definition request_for :: "Method \<Rightarrow> string \<Rightarrow> HttpRequest" where
  "request_for m u =
     \<lparr>request_line = \<lparr>http_method = m, uri = u, version = Http11\<rparr>,
      headers = Map.empty, body = []\<rparr>"

text \<open>
  For the instances below: a library in which no text outside the modelled ones compiles
  (the instances use modelled texts only, so that this part is never consulted), and
  tables as \<open>get\<close> builds them: \<open>/a\<close> alone, then \<open>/b\<close> added; \<open>/c\<close> alone; \<open>/x\<close>
  alone, then \<open>/ax\<close> added.
\<close>

definition fragment_only :: regex_lib where
  "fragment_only text = None"

definition example_routes_a :: "unit RouteTable" where
  "example_routes_a =
     [((Get, ''/a''),
       (\<lparr>pp_pattern = ''/a'', pp_regex = rx_run [RLit CHR ''/'', RLit CHR ''a''], pp_param_names = []\<rparr>,
        returning ok))]"

definition example_routes_ab :: "unit RouteTable" where
  "example_routes_ab =
     example_routes_a @
     [((Get, ''/b''),
       (\<lparr>pp_pattern = ''/b'', pp_regex = rx_run [RLit CHR ''/'', RLit CHR ''b''], pp_param_names = []\<rparr>,
        throwing (std_exception ''boom'')))]"

definition example_routes_c :: "unit RouteTable" where
  "example_routes_c =
     [((Get, ''/c''),
       (\<lparr>pp_pattern = ''/c'', pp_regex = rx_run [RLit CHR ''/'', RLit CHR ''c''], pp_param_names = []\<rparr>,
        throwing other_value))]"

definition example_routes_x :: "unit RouteTable" where
  "example_routes_x =
     [((Get, ''/x''),
       (\<lparr>pp_pattern = ''/x'', pp_regex = rx_run [RLit CHR ''/'', RLit CHR ''x''], pp_param_names = []\<rparr>,
        returning ok))]"

definition example_routes_ax_x :: "unit RouteTable" where
  "example_routes_ax_x =
     ((Get, ''/ax''),
      (\<lparr>pp_pattern = ''/ax'', pp_regex = rx_run [RLit CHR ''/'', RLit CHR ''x''], pp_param_names = []\<rparr>,
       returning not_found))
     # example_routes_x"

section \<open>Properties of the combinators\<close>

lemma choice_all_fail:
  "(\<forall>p \<in> set parsers. isl (p input)) \<Longrightarrow> choice parsers input = Inl MalformedRequest"
  by (induction parsers) (auto split: sum.splits)

lemma choice_first_success:
  "(\<forall>q \<in> set pre. isl (q input)) \<Longrightarrow> p input = Inr r \<Longrightarrow>
   choice (pre @ p # after) input = Inr r"
  by (induction pre) (auto split: sum.splits)

text \<open>
  C10 (as amended). Both overloads of \<open>choice\<close> apply every alternative to the same
  original input, in the given order, and return the first success unmodified. When every
  alternative fails, the vector overload returns \<open>MalformedRequest\<close>, whereas the
  two-parser overload returns whatever error its second parser produced.
\<close>

theorem choice_first_success_or_error:
  "((\<forall>q \<in> set pre. isl (q input)) \<and> p input = Inr r
      \<longrightarrow> choice (pre @ p # after) input = Inr r)
   \<and> ((\<forall>q \<in> set parsers. isl (q input)) \<longrightarrow> choice parsers input = Inl MalformedRequest)
   \<and> (p1 input = Inr r \<longrightarrow> choice2 p1 p2 input = Inr r)
   \<and> (p1 input = Inl e1 \<and> p2 input = Inr r \<longrightarrow> choice2 p1 p2 input = Inr r)
   \<and> (p1 input = Inl e1 \<and> p2 input = Inl e2 \<longrightarrow> choice2 p1 p2 input = Inl e2)"
  using choice_all_fail [of parsers input] choice_first_success [of pre input p r after]
  by (simp add: choice2_def)

theorem choice_first_success_or_error_witness:
  "choice ([string_p ''GET''] @ string_p ''POST'' # [string_p ''PUT'']) ''POST /data''
     = Inr (''POST'', '' /data'')
   \<and> choice [string_p ''GET'', string_p ''POST''] ''DELETE /r'' = Inl MalformedRequest
   \<and> choice2 (string_p ''GET'') (string_p ''POST'') ''GET /path'' = Inr (''GET'', '' /path'')
   \<and> choice2 (string_p ''GET'') (string_p ''POST'') ''POST /data'' = Inr (''POST'', '' /data'')
   \<and> choice2 (string_p ''GET'') (map_p one_char (\<lambda>c. [c])) [] = Inl IncompleteRequest"
proof -
  have a: "\<forall>q \<in> set [string_p ''GET'']. isl (q ''POST /data'')"
    by (simp add: string_p_def starts_with_def)
  have b: "string_p ''POST'' ''POST /data'' = Inr (''POST'', '' /data'')"
    by (simp add: string_p_def starts_with_def)
  have c: "\<forall>q \<in> set [string_p ''GET'', string_p ''POST'']. isl (q ''DELETE /r'')"
    by (simp add: string_p_def starts_with_def)
  have d: "string_p ''GET'' ''GET /path'' = Inr (''GET'', '' /path'')"
    by (simp add: string_p_def starts_with_def)
  have e: "string_p ''GET'' ''POST /data'' = Inl MalformedRequest"
    by (simp add: string_p_def starts_with_def)
  have f: "string_p ''GET'' [] = Inl MalformedRequest"
    by (simp add: string_p_def starts_with_def)
  have g: "map_p one_char (\<lambda>c. [c]) [] = Inl IncompleteRequest"
    by (simp add: map_p_def one_char_def)
  from choice_first_success_or_error
         [of "[string_p ''GET'']" "''POST /data''" "string_p ''POST''" "(''POST'', '' /data'')"
             "[string_p ''PUT'']" "[string_p ''GET'', string_p ''POST'']"
             "string_p ''GET''" "string_p ''POST''" MalformedRequest MalformedRequest]
  have 1: "choice ([string_p ''GET''] @ string_p ''POST'' # [string_p ''PUT'']) ''POST /data''
             = Inr (''POST'', '' /data'')"
    using a b by blast
  from choice_first_success_or_error
         [of "[]" "''DELETE /r''" "string_p ''POST''" "(''POST'', '' /data'')"
             "[]" "[string_p ''GET'', string_p ''POST'']"
             "string_p ''GET''" "string_p ''POST''" MalformedRequest MalformedRequest]
  have 2: "choice [string_p ''GET'', string_p ''POST''] ''DELETE /r'' = Inl MalformedRequest"
    using c by blast
  from choice_first_success_or_error
         [of "[]" "''GET /path''" "string_p ''POST''" "(''GET'', '' /path'')"
             "[]" "[]" "string_p ''GET''" "string_p ''POST''" MalformedRequest MalformedRequest]
  have 3: "choice2 (string_p ''GET'') (string_p ''POST'') ''GET /path'' = Inr (''GET'', '' /path'')"
    using d by blast
  from choice_first_success_or_error
         [of "[]" "''POST /data''" "string_p ''POST''" "(''POST'', '' /data'')"
             "[]" "[]" "string_p ''GET''" "string_p ''POST''" MalformedRequest MalformedRequest]
  have 4: "choice2 (string_p ''GET'') (string_p ''POST'') ''POST /data'' = Inr (''POST'', '' /data'')"
    using e b by blast
  from choice_first_success_or_error
         [of "[]" "[]" "string_p ''POST''" "(''POST'', '' /data'')"
             "[]" "[]" "string_p ''GET''" "map_p one_char (\<lambda>c. [c])"
             MalformedRequest IncompleteRequest]
  have 5: "choice2 (string_p ''GET'') (map_p one_char (\<lambda>c. [c])) [] = Inl IncompleteRequest"
    using f g by blast
  from 1 2 3 4 5 show ?thesis by blast
qed

text \<open>
  C10 as stated fails for the two-parser overload: with both alternatives failing on the
  empty input, the error of the second one (\<open>IncompleteRequest\<close>) comes back.
\<close>

theorem choice2_both_fail_counterexample:
  "one_char [] = Inl IncompleteRequest
   \<and> choice2 one_char one_char [] \<noteq> Inl MalformedRequest"
  by (simp add: choice2_def one_char_def)


section \<open>Properties of the header block parser\<close>

lemma umap_insert_fold: "fold umap_insert kvs h = map_of kvs ++ h"
proof (induction kvs arbitrary: h)
  case Nil
  show ?case by simp
next
  case (Cons kv kvs)
  have "fold umap_insert (kv # kvs) h = fold umap_insert kvs (umap_insert kv h)"
    by simp
  also have "\<dots> = map_of kvs ++ umap_insert kv h"
    by (rule Cons.IH)
  also have "\<dots> = map_of (kv # kvs) ++ h"
    by (rule ext) (auto simp: umap_insert_def map_add_def split: option.splits)
  finally show ?case .
qed

lemma parse_headers_loop_lines:
  "parse_headers_loop h input =
     (case header_lines input of
        Inl e \<Rightarrow> Inl e
      | Inr (kvs, rem) \<Rightarrow> Inr (fold umap_insert kvs h, rem))"
proof (induction h input rule: parse_headers_loop.induct)
  case (1 hdrs cur)
  show ?case
  proof (cases "starts_with cur CRLF")
    case True
    then show ?thesis
      by (simp add: parse_headers_loop.simps [of hdrs cur] header_lines.simps [of cur])
  next
    case False
    show ?thesis
    proof (cases "parse_header cur")
      case (Inl e)
      with False show ?thesis
        by (simp add: parse_headers_loop.simps [of hdrs cur] header_lines.simps [of cur])
    next
      case (Inr r)
      obtain kv rest where r: "r = (kv, rest)" by (cases r)
      from 1 [OF False Inr [unfolded r] refl]
      show ?thesis using False Inr r
        by (simp add: parse_headers_loop.simps [of hdrs cur] header_lines.simps [of cur]
                 split: sum.splits)
    qed
  qed
qed

lemma parse_headers_lines:
  "header_lines input = Inr (kvs, rem) \<Longrightarrow> parse_headers input = Inr (map_of kvs, rem)"
  by (simp add: parse_headers_def parse_headers_loop_lines umap_insert_fold)

lemma map_of_first_occurrence:
  "k \<notin> fst ` set pre \<Longrightarrow> map_of (pre @ (k, v) # after) k = Some v"
  by (induction pre) auto

text \<open>
  C1 (as amended). When the header block of a request holds two header lines with the same
  name, \<open>parse_headers\<close> (and hence \<open>parse_http_request\<close>) returns a mapping in which
  that name is bound to the value of its first occurrence: a later line with a name that
  is already present changes nothing, and keys stay unique.
\<close>

theorem parse_headers_first_occurrence_wins:
  assumes "parse_request_line full = Inr (rl, input)"
    and "header_lines input = Inr (pre @ (k, v1) # mid @ (k, v2) # after, rem)"
    and "k \<notin> fst ` set pre"
  shows "\<exists>hs. parse_headers input = Inr (hs, rem)
            \<and> parse_http_request full = Inr \<lparr>request_line = rl, headers = hs, body = rem\<rparr>
            \<and> hs k = Some v1
            \<and> dom hs = fst ` set (pre @ (k, v1) # mid @ (k, v2) # after)"
proof -
  let ?kvs = "pre @ (k, v1) # mid @ (k, v2) # after"
  from parse_headers_lines [OF assms(2)]
  have ph: "parse_headers input = Inr (map_of ?kvs, rem)" .
  have "map_of ?kvs k = Some v1"
    using assms(3) by (rule map_of_first_occurrence)
  moreover have "dom (map_of ?kvs) = fst ` set ?kvs"
    by (rule dom_map_of_conv_image_fst)
  moreover have "parse_http_request full
                   = Inr \<lparr>request_line = rl, headers = map_of ?kvs, body = rem\<rparr>"
    by (simp add: parse_http_request_def assms(1) ph)
  ultimately show ?thesis using ph by blast
qed

theorem parse_headers_first_occurrence_wins_witness:
  "\<exists>hs. parse_headers (''A: 1'' @ CRLF @ ''A: 2'' @ CRLF @ CRLF @ ''body'') = Inr (hs, ''body'')
       \<and> parse_http_request
            (''GET /a HTTP/1.1'' @ CRLF @ ''A: 1'' @ CRLF @ ''A: 2'' @ CRLF @ CRLF @ ''body'')
           = Inr \<lparr>request_line = \<lparr>http_method = Get, uri = ''/a'', version = Http11\<rparr>,
                  headers = hs, body = ''body''\<rparr>
       \<and> hs ''A'' = Some ''1''"
proof -
  have rl: "parse_request_line
              (''GET /a HTTP/1.1'' @ CRLF @ ''A: 1'' @ CRLF @ ''A: 2'' @ CRLF @ CRLF @ ''body'')
            = Inr (\<lparr>http_method = Get, uri = ''/a'', version = Http11\<rparr>,
                   ''A: 1'' @ CRLF @ ''A: 2'' @ CRLF @ CRLF @ ''body'')"
    by (simp add: parse_request_line_def parse_method_def parse_uri_def parse_version_def
          sp_def crlf_def map_p_def string_p_def CRLF_def starts_with_def isspace_def)
  have hl: "header_lines (''A: 1'' @ CRLF @ ''A: 2'' @ CRLF @ CRLF @ ''body'')
            = Inr ([] @ (''A'', ''1'') # [] @ (''A'', ''2'') # [], ''body'')"
    by (simp add: header_lines.simps parse_header_def CRLF_def starts_with_def isspace_def)
  have nk: "''A'' \<notin> fst ` set ([] :: (string \<times> string) list)" by simp
  from parse_headers_first_occurrence_wins [OF rl hl nk] show ?thesis by blast
qed

text \<open>
  C1 as stated fails: of two lines \<open>A: 1\<close> and \<open>A: 2\<close> the mapping keeps the earlier
  value \<open>1\<close>, not the later value \<open>2\<close>.
\<close>

theorem parse_headers_last_wins_counterexample:
  "parse_headers (''A: 1'' @ CRLF @ ''A: 2'' @ CRLF @ CRLF) = Inr ([''A'' \<mapsto> ''1''], [])
   \<and> [''A'' \<mapsto> ''1''] ''A'' \<noteq> Some ''2''"
  by (simp add: parse_headers_def parse_headers_loop.simps parse_header_def CRLF_def
        starts_with_def isspace_def umap_insert_def)

section \<open>Properties of \<open>content_length\<close>\<close>

lemma stoul_digits:
  assumes "s \<noteq> []" "list_all isdigit s"
  shows "stoul s = (if decimal_value s > ULONG_MAX then Inl out_of_range
                    else Inr (decimal_value s))"
proof -
  from assms have d: "isdigit (hd s)" by (cases s) auto
  then have ns: "\<not> isspace (hd s)" "hd s \<noteq> CHR ''-''" "hd s \<noteq> CHR ''+''"
    by (auto simp: isdigit_def isspace_def)
  have dw: "dropWhile isspace s = s" using assms(1) ns(1) by (cases s) auto
  have tw: "takeWhile isdigit s = s" using assms(2) by (simp add: list_all_iff)
  show ?thesis
    unfolding stoul_def Let_def dw using ns(2,3) assms(1) by (simp add: tw)
qed

text \<open>
  C9 (as amended). \<open>content_length\<close> returns 0 when the \<open>Content-Length\<close> header is absent,
  and when its value is empty or contains a byte that is not a decimal digit (a sign
  character such as \<open>-\<close> is one). When the value is a non-empty string of decimal digits,
  it returns the number the string denotes provided that number fits an \<open>unsigned long\<close>
  (at most \<open>ULONG_MAX\<close>), and 0 when it does not.
\<close>

theorem content_length_cases:
  "(header req ''Content-Length'' = None \<longrightarrow> content_length req = 0)
   \<and> (header req ''Content-Length'' = Some s \<and> (s = [] \<or> \<not> list_all isdigit s)
        \<longrightarrow> content_length req = 0)
   \<and> (header req ''Content-Length'' = Some s \<and> s \<noteq> [] \<and> list_all isdigit s
        \<longrightarrow> content_length req = (if decimal_value s \<le> ULONG_MAX then decimal_value s else 0))"
proof (intro conjI impI)
  assume "header req ''Content-Length'' = None"
  then show "content_length req = 0" by (simp add: content_length_def)
next
  assume "header req ''Content-Length'' = Some s \<and> (s = [] \<or> \<not> list_all isdigit s)"
  then show "content_length req = 0"
    by (auto simp: content_length_def is_valid_number_def split: list.splits)
next
  assume a: "header req ''Content-Length'' = Some s \<and> s \<noteq> [] \<and> list_all isdigit s"
  then have "hd s \<noteq> CHR ''-''" by (cases s) (auto simp: isdigit_def)
  with a have v: "is_valid_number s" by (cases s) (auto simp: is_valid_number_def)
  from a have h: "header req ''Content-Length'' = Some s" by blast
  from a have st: "stoul s = (if decimal_value s > ULONG_MAX then Inl out_of_range
                              else Inr (decimal_value s))"
    by (intro stoul_digits) blast+
  show "content_length req = (if decimal_value s \<le> ULONG_MAX then decimal_value s else 0)"
    unfolding content_length_def h using v st by simp
qed

theorem content_length_cases_witness:
  "content_length \<lparr>request_line = \<lparr>http_method = Get, uri = ''/'', version = Http11\<rparr>,
                   headers = Map.empty, body = []\<rparr> = 0
   \<and> content_length \<lparr>request_line = \<lparr>http_method = Get, uri = ''/'', version = Http11\<rparr>,
                     headers = [''Content-Length'' \<mapsto> ''-10''], body = []\<rparr> = 0
   \<and> content_length \<lparr>request_line = \<lparr>http_method = Get, uri = ''/'', version = Http11\<rparr>,
                     headers = [''Content-Length'' \<mapsto> ''42''], body = []\<rparr> = 42"
proof -
  let ?rl = "\<lparr>http_method = Get, uri = ''/'', version = Http11\<rparr>"
  have 1: "content_length \<lparr>request_line = ?rl, headers = Map.empty, body = []\<rparr> = 0"
    using content_length_cases
            [of "\<lparr>request_line = ?rl, headers = Map.empty, body = []\<rparr>" "[]"]
    by (simp add: header_def)
  have 2: "content_length
             \<lparr>request_line = ?rl, headers = [''Content-Length'' \<mapsto> ''-10''], body = []\<rparr> = 0"
    using content_length_cases
            [of "\<lparr>request_line = ?rl, headers = [''Content-Length'' \<mapsto> ''-10''], body = []\<rparr>"
                "''-10''"]
    by (simp add: header_def isdigit_def)
  have 3: "content_length
             \<lparr>request_line = ?rl, headers = [''Content-Length'' \<mapsto> ''42''], body = []\<rparr> = 42"
    using content_length_cases
            [of "\<lparr>request_line = ?rl, headers = [''Content-Length'' \<mapsto> ''42''], body = []\<rparr>"
                "''42''"]
    by (simp add: header_def isdigit_def decimal_value_def digit_val_def ULONG_MAX_def)
  from 1 2 3 show ?thesis by blast
qed

text \<open>
  C9 as stated fails: the all-digit value \<open>18446744073709551616\<close> (that is \<open>2 ^ 64\<close>)
  makes \<open>std::stoul\<close> throw, and \<open>content_length\<close> returns 0 instead of the number.
\<close>

theorem content_length_overflow_counterexample:
  "list_all isdigit ''18446744073709551616''
   \<and> decimal_value ''18446744073709551616'' = 18446744073709551616
   \<and> content_length \<lparr>request_line = \<lparr>http_method = Get, uri = ''/'', version = Http11\<rparr>,
                     headers = [''Content-Length'' \<mapsto> ''18446744073709551616''],
                     body = []\<rparr> = 0"
  by (simp add: content_length_def header_def is_valid_number_def isdigit_def stoul_def
        isspace_def decimal_value_def digit_val_def ULONG_MAX_def)


section \<open>Properties of the path matcher\<close>

text \<open>
  C2 (the code at the failing input). The specification has \<open>PathPattern("/users/:id")\<close>
  match every path \<open>/users/\<close> followed by one or more bytes other than \<open>/\<close> and bind
  \<open>id\<close> to them, as in \<open>match("/users/42")\<close>, and not match \<open>/users/42/x\<close>. The
  constructor copies an ordinary character of the pattern only when it is the last one, so
  the regular expression it writes is \<open>^//([^/]+)d$\<close> with the one parameter name \<open>d\<close>
  (a modelled text, so that \<open>other\<close> plays no part):
  \<open>/users/42\<close> is not matched (nor is \<open>/users/42/x\<close>), while \<open>//42d\<close> is, binding
  \<open>d\<close> to \<open>42\<close>.
\<close>

theorem users_id_is_not_matched:
  "regex_str (compile_pattern ''/users/:id'') = ''^//([^/]+)d$''
   \<and> PathPattern (std_regex other) ''/users/:id''
       = Some \<lparr>pp_pattern = ''/users/:id'',
               pp_regex = rx_run [RLit CHR ''/'', RLit CHR ''/'', RSeg, RLit CHR ''d''],
               pp_param_names = [''d'']\<rparr>
   \<and> match \<lparr>pp_pattern = ''/users/:id'',
             pp_regex = rx_run [RLit CHR ''/'', RLit CHR ''/'', RSeg, RLit CHR ''d''],
             pp_param_names = [''d'']\<rparr> ''/users/42'' = None
   \<and> match \<lparr>pp_pattern = ''/users/:id'',
             pp_regex = rx_run [RLit CHR ''/'', RLit CHR ''/'', RSeg, RLit CHR ''d''],
             pp_param_names = [''d'']\<rparr> ''/users/42/x'' = None
   \<and> match \<lparr>pp_pattern = ''/users/:id'',
             pp_regex = rx_run [RLit CHR ''/'', RLit CHR ''/'', RSeg, RLit CHR ''d''],
             pp_param_names = [''d'']\<rparr> ''//42d'' = Some [''d'' \<mapsto> ''42'']"
  by (simp add: PathPattern_def compile_pattern_def Let_def std_regex_def fragment_items_def
        rx_parse.simps starts_with_def rx_special_def match_def)

text \<open>
  C3 (the code at the failing input). The specification has a wildcard segment \<open>*name\<close>
  become a group, named by the text after the \<open>*\<close>, that matches the whole rest of the
  path, as in \<open>PathPattern("/static/*path").match("/static/a/b.css")\<close>. The constructor
  looks at \<open>*\<close> only when it is the last character of the pattern: for
  \<open>/static/*path\<close> it writes \<open>^//h$\<close> with no parameter, and \<open>/static/a/b.css\<close> is not
  matched. For \<open>/static/*\<close> it writes \<open>^//(.*)$\<close>, and the name of the group is the
  fixed text \<open>wildcard\<close>.
\<close>

theorem static_wildcard_is_not_matched:
  "regex_str (compile_pattern ''/static/*path'') = ''^//h$''
   \<and> PathPattern (std_regex other) ''/static/*path''
       = Some \<lparr>pp_pattern = ''/static/*path'',
               pp_regex = rx_run [RLit CHR ''/'', RLit CHR ''/'', RLit CHR ''h''],
               pp_param_names = []\<rparr>
   \<and> match \<lparr>pp_pattern = ''/static/*path'',
             pp_regex = rx_run [RLit CHR ''/'', RLit CHR ''/'', RLit CHR ''h''],
             pp_param_names = []\<rparr> ''/static/a/b.css'' = None
   \<and> PathPattern (std_regex other) ''/static/*''
       = Some \<lparr>pp_pattern = ''/static/*'',
               pp_regex = rx_run [RLit CHR ''/'', RLit CHR ''/'', RRest],
               pp_param_names = [''wildcard'']\<rparr>
   \<and> match \<lparr>pp_pattern = ''/static/*'',
               pp_regex = rx_run [RLit CHR ''/'', RLit CHR ''/'', RRest],
               pp_param_names = [''wildcard'']\<rparr> ''//a/b.css'' = Some [''wildcard'' \<mapsto> ''a/b.css'']"
  by (simp add: PathPattern_def compile_pattern_def Let_def std_regex_def fragment_items_def
        rx_parse.simps starts_with_def rx_special_def match_def line_terminator_def)

section \<open>Properties of the middleware\<close>

text \<open>
  C8. \<open>compose([A, B], H)\<close> is \<open>A(B(H))\<close>: the fold runs from the last element of the list
  to the first, and the first element is the outermost wrapper. For middlewares with an
  effect before and an effect after the call of the inner handler, applying the composed
  handler runs the effect before of \<open>A\<close>, then that of \<open>B\<close>, then \<open>H\<close>, then the effect
  after of \<open>B\<close>, then that of \<open>A\<close>.
\<close>

theorem compose_first_is_outermost:
  "compose [A, B] H = A (B H)
   \<and> (H req (pre_b req (pre_a req w)) = (w', Returns response)
        \<longrightarrow> compose [around pre_a post_a, around pre_b post_b] H req w
            = (post_a req response (post_b req response w'), Returns response))"
  by (simp add: compose_def around_def)

theorem compose_first_is_outermost_witness:
  "compose [around (\<lambda>req w. w @ [''A-pre'']) (\<lambda>req response w. w @ [''A-post'']),
            around (\<lambda>req w. w @ [''B-pre'']) (\<lambda>req response w. w @ [''B-post''])]
           (\<lambda>req w. (w @ [''H''], Returns ok)) (request_for Get ''/a'') []
   = ([''A-pre'', ''B-pre'', ''H'', ''B-post'', ''A-post''], Returns ok)"
proof -
  note order =
    compose_first_is_outermost
      [of "around (\<lambda>req w. w @ [''A-pre'']) (\<lambda>req response w. w @ [''A-post''])"
          "around (\<lambda>req w. w @ [''B-pre'']) (\<lambda>req response w. w @ [''B-post''])"
          "\<lambda>req w. (w @ [''H''], Returns ok)" "request_for Get ''/a''"
          "\<lambda>req w. w @ [''B-pre'']" "\<lambda>req w. w @ [''A-pre'']" "[]"
          "[''A-pre'', ''B-pre'', ''H'']" ok
          "\<lambda>req response w. w @ [''A-post'']" "\<lambda>req response w. w @ [''B-post'']",
       THEN conjunct2]
  then show ?thesis by simp
qed

text \<open>
  C7 (as amended). When the inner handler returns a response, \<open>cors\<close> returns that
  response with the headers \<open>Access-Control-Allow-Origin\<close> and
  \<open>Access-Control-Allow-Methods\<close> present: a value the inner response already carried
  under one of these names is kept, and otherwise the name is bound to \<open>*\<close>, respectively
  to \<open>GET, POST, PUT, DELETE\<close>. All other fields and headers are unchanged.
\<close>

theorem cors_keeps_or_adds:
  assumes "next req w = (w', Returns response)"
  shows "\<exists>response'. cors next req w = (w', Returns response')
           \<and> status_code response' = status_code response
           \<and> status_text response' = status_text response
           \<and> resp_body response' = resp_body response
           \<and> (\<forall>k. k \<noteq> ''Access-Control-Allow-Origin'' \<and> k \<noteq> ''Access-Control-Allow-Methods''
                  \<longrightarrow> resp_headers response' k = resp_headers response k)
           \<and> resp_headers response' ''Access-Control-Allow-Origin''
               = Some (case resp_headers response ''Access-Control-Allow-Origin'' of
                         None \<Rightarrow> ''*'' | Some v \<Rightarrow> v)
           \<and> resp_headers response' ''Access-Control-Allow-Methods''
               = Some (case resp_headers response ''Access-Control-Allow-Methods'' of
                         None \<Rightarrow> ''GET, POST, PUT, DELETE'' | Some v \<Rightarrow> v)"
  using assms
  by (auto simp: cors_def with_header_def umap_insert_def split: option.splits)

theorem cors_keeps_or_adds_witness:
  "\<exists>response'. cors (returning ok) (request_for Get ''/a'') () = ((), Returns response')
      \<and> status_code response' = 200
      \<and> resp_headers response' ''Access-Control-Allow-Origin'' = Some ''*''
      \<and> resp_headers response' ''Access-Control-Allow-Methods'' = Some ''GET, POST, PUT, DELETE''"
proof -
  have "returning ok (request_for Get ''/a'') () = ((), Returns ok)"
    by (simp add: returning_def)
  with cors_keeps_or_adds [of "returning ok" "request_for Get ''/a''" "()" "()" ok]
  show ?thesis
    by (auto simp: ok_def)
qed

text \<open>
  C7 as stated fails: an inner response that already carries
  \<open>Access-Control-Allow-Origin: https://a.example\<close> keeps that value; \<open>cors\<close> does not
  overwrite it with \<open>*\<close>.
\<close>

theorem cors_overwrite_counterexample:
  "cors (returning (with_header ok ''Access-Control-Allow-Origin'' ''https://a.example''))
        (request_for Get ''/a'') ()
   = ((), Returns \<lparr>status_code = 200, status_text = ''OK'',
                   resp_headers = [''Access-Control-Allow-Origin'' \<mapsto> ''https://a.example'',
                                   ''Access-Control-Allow-Methods'' \<mapsto> ''GET, POST, PUT, DELETE''],
                   resp_body = []\<rparr>)"
  by (simp add: cors_def returning_def with_header_def umap_insert_def ok_def)

section \<open>Properties of the router\<close>

subsection \<open>The order of keys and the tables of built stores\<close>

lemma method_index_inj: "method_index a = method_index b \<Longrightarrow> a = b"
  by (cases a; cases b) simp_all

lemma key_less_irrefl: "\<not> key_less k k"
  by (simp add: key_less_def)

lemma key_less_trans: "key_less a b \<Longrightarrow> key_less b c \<Longrightarrow> key_less a c"
  by (auto simp: key_less_def)

lemma key_less_asym: "key_less a b \<Longrightarrow> \<not> key_less b a"
  using key_less_irrefl key_less_trans by blast

lemma key_less_total: "key_less a b \<or> a = b \<or> key_less b a"
proof -
  have "method_index (fst a) < method_index (fst b) \<or> method_index (fst a) = method_index (fst b)
        \<or> method_index (fst b) < method_index (fst a)" by arith
  moreover have "snd a < snd b \<or> snd a = snd b \<or> snd b < snd a" by auto
  ultimately show ?thesis
    by (auto simp: key_less_def prod_eq_iff dest: method_index_inj)
qed

lemma table_assign_keys:
  "fst ` set (table_assign key val table) = insert key (fst ` set table)"
  by (induction key val table rule: table_assign.induct) auto

lemma table_assign_sorted:
  "sorted_keys table \<Longrightarrow> sorted_keys (table_assign key val table)"
proof (induction key val table rule: table_assign.induct)
  case (1 key val)
  show ?case by (simp add: sorted_keys_def)
next
  case (2 key val k v table)
  show ?case
  proof (cases "key_less key k")
    case True
    with 2(2) show ?thesis
      by (auto simp: sorted_keys_def dest: key_less_trans)
  next
    case False
    show ?thesis
    proof (cases "key = k")
      case True
      with False 2(2) show ?thesis by (simp add: sorted_keys_def)
    next
      case ne: False
      from False ne key_less_total [of key k] have gt: "key_less k key" by blast
      from 2(2) have tl: "sorted_keys table" by (simp add: sorted_keys_def)
      from 2(1) [OF False ne tl] have ih: "sorted_keys (table_assign key val table)" .
      have "\<forall>x \<in> fst ` set (table_assign key val table). key_less k x"
        unfolding table_assign_keys using 2(2) gt by (auto simp: sorted_keys_def)
      with ih False ne show ?thesis by (simp add: sorted_keys_def)
    qed
  qed
qed

lemma built_sorted: "built lib st \<Longrightarrow> \<forall>table \<in> set st. sorted_keys table"
proof (induction rule: built.induct)
  case empty
  show ?case by simp
next
  case (new_router st)
  then show ?case by (simp add: Router_def sorted_keys_def)
next
  case (new_route st r m pattern h st' r')
  from new_route.hyps(2) have "st ! routes r \<in> set st" by (simp add: live_def)
  with new_route.IH have "sorted_keys (st ! routes r)" by blast
  with new_route.hyps(3) new_route.IH show ?case
    by (auto simp: route_def table_assign_sorted split: option.splits)
qed

lemma find_loop_none:
  "(\<forall>e \<in> set table. \<not> entry_matches req e) \<Longrightarrow> find_loop table req = None"
  by (induction table req rule: find_loop.induct) (auto simp: entry_matches_def)

lemma find_loop_first:
  assumes "\<forall>x \<in> set before. \<not> entry_matches req x"
    and "fst (fst e) = http_method (request_line req)"
    and "match (fst (snd e)) (uri (request_line req)) = Some ps"
  shows "find_loop (before @ e # after) req = Some \<lparr>handler = snd (snd e), params = ps\<rparr>"
  using assms
proof (induction before)
  case Nil
  then show ?case by (cases e) auto
next
  case (Cons x before)
  then show ?case by (cases x) (auto simp: entry_matches_def)
qed

lemma find_loop_smallest:
  assumes "sorted_keys table" and "e \<in> set table"
    and "fst (fst e) = http_method (request_line req)"
    and "match (fst (snd e)) (uri (request_line req)) = Some ps"
    and "\<forall>e' \<in> set table. entry_matches req e' \<longrightarrow> e' = e \<or> key_less (fst e) (fst e')"
  shows "find_loop table req = Some \<lparr>handler = snd (snd e), params = ps\<rparr>"
proof -
  from assms(2) obtain before after where t: "table = before @ e # after"
    by (auto simp: in_set_conv_decomp)
  have "\<forall>x \<in> set before. \<not> entry_matches req x"
  proof
    fix x assume x: "x \<in> set before"
    with assms(1) t have lt: "key_less (fst x) (fst e)"
      by (auto simp: sorted_keys_def sorted_wrt_append)
    show "\<not> entry_matches req x"
    proof
      assume "entry_matches req x"
      with assms(5) x t have "x = e \<or> key_less (fst e) (fst x)" by auto
      with lt show False using key_less_irrefl key_less_asym by blast
    qed
  qed
  from find_loop_first [OF this assms(3,4)] t show ?thesis by simp
qed

lemma find_loop_some:
  "find_loop table req = Some rm \<Longrightarrow>
   \<exists>before e after. table = before @ e # after \<and> (\<forall>x \<in> set before. \<not> entry_matches req x)
      \<and> entry_matches req e \<and> handler rm = snd (snd e)
      \<and> match (fst (snd e)) (uri (request_line req)) = Some (params rm)"
proof (induction table req rule: find_loop.induct)
  case (1 req)
  then show ?case by simp
next
  case (2 m p pattern h table req)
  let ?e = "((m, p), (pattern, h))"
  show ?case
  proof (cases "entry_matches req ?e")
    case True
    with 2(3) have "handler rm = h \<and> match pattern (uri (request_line req)) = Some (params rm)"
      by (auto simp: entry_matches_def split: option.splits)
    with True have "?e # table = [] @ ?e # table \<and> (\<forall>x \<in> set []. \<not> entry_matches req x)
      \<and> entry_matches req ?e \<and> handler rm = snd (snd ?e)
      \<and> match (fst (snd ?e)) (uri (request_line req)) = Some (params rm)" by simp
    then show ?thesis by blast
  next
    case False
    with 2(3) have f: "find_loop table req = Some rm"
      by (auto simp: entry_matches_def split: if_splits option.splits)
    have "\<exists>before e after. table = before @ e # after \<and> (\<forall>x \<in> set before. \<not> entry_matches req x)
      \<and> entry_matches req e \<and> handler rm = snd (snd e)
      \<and> match (fst (snd e)) (uri (request_line req)) = Some (params rm)"
    proof (cases "m \<noteq> http_method (request_line req)")
      case True
      from 2(1) [OF True f] show ?thesis .
    next
      case mf: False
      with False have "match pattern (uri (request_line req)) = None"
        by (simp add: entry_matches_def)
      from 2(2) [OF mf this f] show ?thesis .
    qed
    then obtain before e after where b: "table = before @ e # after"
      "\<forall>x \<in> set before. \<not> entry_matches req x" "entry_matches req e" "handler rm = snd (snd e)"
      "match (fst (snd e)) (uri (request_line req)) = Some (params rm)" by blast
    from b(1) have "?e # table = (?e # before) @ e # after" by simp
    moreover from b(2) False have "\<forall>x \<in> set (?e # before). \<not> entry_matches req x" by simp
    ultimately show ?thesis using b(3,4,5) by blast
  qed
qed

subsection \<open>The example tables are what \<open>get\<close> builds\<close>

lemma PathPattern_a:
  "PathPattern (std_regex other) ''/a''
   = Some \<lparr>pp_pattern = ''/a'', pp_regex = rx_run [RLit CHR ''/'', RLit CHR ''a''], pp_param_names = []\<rparr>"
  by (simp add: PathPattern_def compile_pattern_def Let_def std_regex_def fragment_items_def
        rx_parse.simps starts_with_def rx_special_def)

lemma PathPattern_b:
  "PathPattern (std_regex other) ''/b''
   = Some \<lparr>pp_pattern = ''/b'', pp_regex = rx_run [RLit CHR ''/'', RLit CHR ''b''], pp_param_names = []\<rparr>"
  by (simp add: PathPattern_def compile_pattern_def Let_def std_regex_def fragment_items_def
        rx_parse.simps starts_with_def rx_special_def)

lemma PathPattern_c:
  "PathPattern (std_regex other) ''/c''
   = Some \<lparr>pp_pattern = ''/c'', pp_regex = rx_run [RLit CHR ''/'', RLit CHR ''c''], pp_param_names = []\<rparr>"
  by (simp add: PathPattern_def compile_pattern_def Let_def std_regex_def fragment_items_def
        rx_parse.simps starts_with_def rx_special_def)

lemma PathPattern_x:
  "PathPattern (std_regex other) ''/x''
   = Some \<lparr>pp_pattern = ''/x'', pp_regex = rx_run [RLit CHR ''/'', RLit CHR ''x''], pp_param_names = []\<rparr>"
  by (simp add: PathPattern_def compile_pattern_def Let_def std_regex_def fragment_items_def
        rx_parse.simps starts_with_def rx_special_def)

lemma PathPattern_ax:
  "PathPattern (std_regex other) ''/ax''
   = Some \<lparr>pp_pattern = ''/ax'', pp_regex = rx_run [RLit CHR ''/'', RLit CHR ''x''], pp_param_names = []\<rparr>"
  by (simp add: PathPattern_def compile_pattern_def Let_def std_regex_def fragment_items_def
        rx_parse.simps starts_with_def rx_special_def)

lemma get_a:
  "get (std_regex other) [[]] \<lparr>routes = 0\<rparr> ''/a'' (returning ok) = Some ([[], example_routes_a], \<lparr>routes = 1\<rparr>)"
  by (simp add: get_def route_def PathPattern_a example_routes_a_def)

lemma get_ab:
  "get (std_regex other) [[], example_routes_a] \<lparr>routes = 1\<rparr> ''/b'' (throwing (std_exception ''boom''))
   = Some ([[], example_routes_a, example_routes_ab], \<lparr>routes = 2\<rparr>)"
  by (simp add: get_def route_def PathPattern_b example_routes_a_def example_routes_ab_def
        key_less_def)

lemma get_c:
  "get (std_regex other) [[]] \<lparr>routes = 0\<rparr> ''/c'' (throwing other_value)
   = Some ([[], example_routes_c], \<lparr>routes = 1\<rparr>)"
  by (simp add: get_def route_def PathPattern_c example_routes_c_def)

lemma get_x:
  "get (std_regex other) [[]] \<lparr>routes = 0\<rparr> ''/x'' (returning ok) = Some ([[], example_routes_x], \<lparr>routes = 1\<rparr>)"
  by (simp add: get_def route_def PathPattern_x example_routes_x_def)

lemma get_ax:
  "get (std_regex other) [[], example_routes_x] \<lparr>routes = 1\<rparr> ''/ax'' (returning not_found)
   = Some ([[], example_routes_x, example_routes_ax_x], \<lparr>routes = 2\<rparr>)"
  by (simp add: get_def route_def PathPattern_ax example_routes_x_def example_routes_ax_x_def
        key_less_def)

subsection \<open>Registration\<close>

lemma route_extends:
  "route lib st r m pattern h = Some (st', r') \<Longrightarrow>
   \<exists>table. st' = st @ [table] \<and> r' = \<lparr>routes = length st\<rparr>"
  by (auto simp: route_def split: option.splits)

text \<open>
  A pattern whose text is none of the modelled ones is registered like any other as soon
  as \<open>std::regex\<close> compiles the text: \<open>/|\<close> gives the text \<open>^/|$\<close>, and the
  new table holds whatever compiled expression the library returned for it.
\<close>

lemma route_with_operator_text:
  assumes "lib ''^/|$'' = Some rx"
  shows "route lib st r m ''/|'' h
         = Some (st @ [table_assign (m, ''/|'')
                        (\<lparr>pp_pattern = ''/|'', pp_regex = rx, pp_param_names = []\<rparr>, h)
                        (st ! routes r)],
                 \<lparr>routes = length st\<rparr>)"
  using assms by (simp add: route_def PathPattern_def compile_pattern_def Let_def)

text \<open>
  C4. Whatever \<open>std::regex\<close> does, a call of \<open>route\<close>, \<open>get\<close>, \<open>post\<close>, \<open>put\<close> or
  \<open>delete_\<close> on a router \<open>r1\<close> returns a new router, unless the construction of the
  \<open>std::regex\<close> from the text written for the pattern throws, and leaves \<open>r1\<close> unchanged:
  the new router points at a new cell of the store, every cell that existed before holds
  the table it held, and for every request \<open>r1.find\<close> returns after the call what it
  returned before.
\<close>

theorem route_leaves_router_unchanged:
  assumes "live st r1"
    and "op \<in> {(\<lambda>st r. route lib st r m), get lib, post lib, put lib, delete_route lib}"
  shows "((\<exists>st' r2. op st r1 pattern h = Some (st', r2))
            \<longleftrightarrow> lib (regex_str (compile_pattern pattern)) \<noteq> None)
     \<and> (op st r1 pattern h = Some (st', r2)
        \<longrightarrow> find_route st' r1 req = find_route st r1 req
            \<and> st' ! routes r1 = st ! routes r1 \<and> take (length st) st' = st
            \<and> live st' r1 \<and> live st' r2 \<and> routes r2 \<noteq> routes r1)"
proof (rule conjI)
  from assms(2)
  show "(\<exists>st' r2. op st r1 pattern h = Some (st', r2))
          \<longleftrightarrow> lib (regex_str (compile_pattern pattern)) \<noteq> None"
    by (auto simp: get_def post_def put_def delete_route_def route_def PathPattern_def Let_def
             split: option.splits)
next
  show "op st r1 pattern h = Some (st', r2)
        \<longrightarrow> find_route st' r1 req = find_route st r1 req
            \<and> st' ! routes r1 = st ! routes r1 \<and> take (length st) st' = st
            \<and> live st' r1 \<and> live st' r2 \<and> routes r2 \<noteq> routes r1"
  proof (rule impI)
    assume "op st r1 pattern h = Some (st', r2)"
    with assms(2) obtain m' where "route lib st r1 m' pattern h = Some (st', r2)"
      by (auto simp: get_def post_def put_def delete_route_def)
    from route_extends [OF this] obtain table where
      e: "st' = st @ [table]" "r2 = \<lparr>routes = length st\<rparr>" by blast
    with assms(1) show "find_route st' r1 req = find_route st r1 req
            \<and> st' ! routes r1 = st ! routes r1 \<and> take (length st) st' = st
            \<and> live st' r1 \<and> live st' r2 \<and> routes r2 \<noteq> routes r1"
      by (simp add: find_route_def live_def nth_append)
  qed
qed

theorem route_leaves_router_unchanged_witness:
  "Router ([] :: unit store) = ([[]], \<lparr>routes = 0\<rparr>)
   \<and> get (std_regex fragment_only) [[]] \<lparr>routes = 0\<rparr> ''/a'' (returning ok)
       = Some ([[], example_routes_a], \<lparr>routes = 1\<rparr>)
   \<and> get (std_regex fragment_only) [[], example_routes_a] \<lparr>routes = 1\<rparr> ''/b''
          (throwing (std_exception ''boom''))
       = Some ([[], example_routes_a, example_routes_ab], \<lparr>routes = 2\<rparr>)
   \<and> find_route [[], example_routes_a, example_routes_ab] \<lparr>routes = 1\<rparr> (request_for Get ''/a'')
       = Some \<lparr>handler = returning ok, params = Map.empty\<rparr>
   \<and> find_route [[], example_routes_a, example_routes_ab] \<lparr>routes = 1\<rparr> (request_for Get ''/b'')
       = None"
proof -
  let ?lib = "std_regex fragment_only"
  have l: "live [[], example_routes_a] \<lparr>routes = 1\<rparr>" by (simp add: live_def)
  have o: "get ?lib
             \<in> {(\<lambda>st r. route ?lib st r Get), get ?lib, post ?lib, put ?lib, delete_route ?lib}"
    by simp
  from route_leaves_router_unchanged [OF l o, THEN conjunct2] get_ab [of fragment_only]
  have frame: "find_route [[], example_routes_a, example_routes_ab] \<lparr>routes = 1\<rparr> req
               = find_route [[], example_routes_a] \<lparr>routes = 1\<rparr> req" for req
    by blast
  have a: "find_route [[], example_routes_a] \<lparr>routes = 1\<rparr> (request_for Get ''/a'')
           = Some \<lparr>handler = returning ok, params = Map.empty\<rparr>"
    by (simp add: find_route_def example_routes_a_def request_for_def match_def)
  have b: "find_route [[], example_routes_a] \<lparr>routes = 1\<rparr> (request_for Get ''/b'') = None"
    by (simp add: find_route_def example_routes_a_def request_for_def match_def)
  show ?thesis
    using frame [of "request_for Get ''/a''"] frame [of "request_for Get ''/b''"] a b
      get_a [of fragment_only] get_ab [of fragment_only]
    by (simp add: Router_def)
qed

subsection \<open>Lookup\<close>

text \<open>
  C6. Whatever \<open>std::regex\<close> does, for every router built by \<open>Router()\<close> and
  registrations the table is ordered by the key (method, pattern string), and \<open>find\<close>
  scans it in that order: it returns no match exactly when no entry matches the request,
  and otherwise the matching entry whose key is smaller than the key of every other
  matching entry, whatever the order of registration.
\<close>

theorem find_follows_key_order:
  assumes "built lib st" and "live st r"
  shows "sorted_keys (st ! routes r)
     \<and> ((\<forall>e \<in> set (st ! routes r). \<not> entry_matches req e) \<longrightarrow> find_route st r req = None)
     \<and> (e \<in> set (st ! routes r) \<and> entry_matches req e
          \<and> (\<forall>e' \<in> set (st ! routes r).
                 entry_matches req e' \<longrightarrow> e' = e \<or> key_less (fst e) (fst e'))
        \<longrightarrow> (\<exists>ps. match (fst (snd e)) (uri (request_line req)) = Some ps
                 \<and> find_route st r req = Some \<lparr>handler = snd (snd e), params = ps\<rparr>))
     \<and> (find_route st r req = Some rm
        \<longrightarrow> (\<exists>e \<in> set (st ! routes r).
               entry_matches req e \<and> handler rm = snd (snd e)
               \<and> match (fst (snd e)) (uri (request_line req)) = Some (params rm)
               \<and> (\<forall>e' \<in> set (st ! routes r).
                      entry_matches req e' \<longrightarrow> e' = e \<or> key_less (fst e) (fst e'))))"
proof -
  let ?t = "st ! routes r"
  from assms(2) have "?t \<in> set st" by (simp add: live_def)
  with built_sorted [OF assms(1)] have s: "sorted_keys ?t" by blast
  have none: "(\<forall>e \<in> set ?t. \<not> entry_matches req e) \<longrightarrow> find_route st r req = None"
    by (simp add: find_route_def find_loop_none)
  have least: "e \<in> set ?t \<and> entry_matches req e
          \<and> (\<forall>e' \<in> set ?t. entry_matches req e' \<longrightarrow> e' = e \<or> key_less (fst e) (fst e'))
        \<longrightarrow> (\<exists>ps. match (fst (snd e)) (uri (request_line req)) = Some ps
                 \<and> find_route st r req = Some \<lparr>handler = snd (snd e), params = ps\<rparr>)"
  proof
    assume a: "e \<in> set ?t \<and> entry_matches req e
          \<and> (\<forall>e' \<in> set ?t. entry_matches req e' \<longrightarrow> e' = e \<or> key_less (fst e) (fst e'))"
    then obtain ps where ps: "match (fst (snd e)) (uri (request_line req)) = Some ps"
      by (auto simp: entry_matches_def)
    from a have m: "fst (fst e) = http_method (request_line req)"
      by (simp add: entry_matches_def)
    from a have "e \<in> set ?t" and
      "\<forall>e' \<in> set ?t. entry_matches req e' \<longrightarrow> e' = e \<or> key_less (fst e) (fst e')"
      by blast+
    from find_loop_smallest [OF s this(1) m ps this(2)] ps
    show "\<exists>ps. match (fst (snd e)) (uri (request_line req)) = Some ps
                 \<and> find_route st r req = Some \<lparr>handler = snd (snd e), params = ps\<rparr>"
      by (simp add: find_route_def)
  qed
  have some: "find_route st r req = Some rm
        \<longrightarrow> (\<exists>e \<in> set ?t.
               entry_matches req e \<and> handler rm = snd (snd e)
               \<and> match (fst (snd e)) (uri (request_line req)) = Some (params rm)
               \<and> (\<forall>e' \<in> set ?t. entry_matches req e' \<longrightarrow> e' = e \<or> key_less (fst e) (fst e')))"
  proof
    assume "find_route st r req = Some rm"
    then have "find_loop ?t req = Some rm" by (simp add: find_route_def)
    from find_loop_some [OF this] obtain before e0 after where
      t: "?t = before @ e0 # after" and
      b: "\<forall>x \<in> set before. \<not> entry_matches req x" and
      e: "entry_matches req e0" "handler rm = snd (snd e0)"
         "match (fst (snd e0)) (uri (request_line req)) = Some (params rm)"
      by blast
    from s t have "\<forall>x \<in> set after. key_less (fst e0) (fst x)"
      by (auto simp: sorted_keys_def sorted_wrt_append)
    with b t have "\<forall>e' \<in> set ?t. entry_matches req e' \<longrightarrow> e' = e0 \<or> key_less (fst e0) (fst e')"
      by auto
    moreover from t have "e0 \<in> set ?t" by simp
    ultimately show "\<exists>e \<in> set ?t.
               entry_matches req e \<and> handler rm = snd (snd e)
               \<and> match (fst (snd e)) (uri (request_line req)) = Some (params rm)
               \<and> (\<forall>e' \<in> set ?t. entry_matches req e' \<longrightarrow> e' = e \<or> key_less (fst e) (fst e'))"
      using e by blast
  qed
  from s none least some show ?thesis by blast
qed

theorem find_follows_key_order_witness:
  "get (std_regex fragment_only) [[]] \<lparr>routes = 0\<rparr> ''/x'' (returning ok)
       = Some ([[], example_routes_x], \<lparr>routes = 1\<rparr>)
   \<and> get (std_regex fragment_only) [[], example_routes_x] \<lparr>routes = 1\<rparr> ''/ax''
          (returning not_found)
       = Some ([[], example_routes_x, example_routes_ax_x], \<lparr>routes = 2\<rparr>)
   \<and> find_route [[], example_routes_x, example_routes_ax_x] \<lparr>routes = 2\<rparr> (request_for Get ''/x'')
       = Some \<lparr>handler = returning not_found, params = Map.empty\<rparr>"
proof -
  let ?st = "[[], example_routes_x, example_routes_ax_x]"
  let ?r = "\<lparr>routes = 2\<rparr>"
  let ?e = "((Get, ''/ax''),
            (\<lparr>pp_pattern = ''/ax'', pp_regex = rx_run [RLit CHR ''/'', RLit CHR ''x''],
              pp_param_names = []\<rparr>,
             returning not_found :: unit Handler))"
  let ?lib = "std_regex fragment_only"
  have b0: "built ?lib ([[]] :: unit store)"
    using built.new_router [OF built.empty, of ?lib] by (simp add: Router_def)
  have b1: "built ?lib [[], example_routes_x]"
    using built.new_route [OF b0 _ get_x [of fragment_only, unfolded get_def]]
    by (simp add: live_def)
  have b2: "built ?lib ?st"
    using built.new_route [OF b1 _ get_ax [of fragment_only, unfolded get_def]]
    by (simp add: live_def)
  have l: "live ?st ?r" by (simp add: live_def)
  have m: "match \<lparr>pp_pattern = ''/ax'', pp_regex = rx_run [RLit CHR ''/'', RLit CHR ''x''],
                  pp_param_names = []\<rparr> ''/x'' = Some Map.empty"
    by (simp add: match_def)
  have pre: "?e \<in> set (?st ! routes ?r) \<and> entry_matches (request_for Get ''/x'') ?e
      \<and> (\<forall>e' \<in> set (?st ! routes ?r).
             entry_matches (request_for Get ''/x'') e' \<longrightarrow> e' = ?e \<or> key_less (fst ?e) (fst e'))"
    by (simp add: example_routes_ax_x_def example_routes_x_def entry_matches_def request_for_def
          match_def key_less_def)
  from find_follows_key_order [OF b2 l, of "request_for Get ''/x''" ?e]
  have "?e \<in> set (?st ! routes ?r) \<and> entry_matches (request_for Get ''/x'') ?e
      \<and> (\<forall>e' \<in> set (?st ! routes ?r).
             entry_matches (request_for Get ''/x'') e' \<longrightarrow> e' = ?e \<or> key_less (fst ?e) (fst e'))
      \<longrightarrow> (\<exists>ps. match (fst (snd ?e)) (uri (request_line (request_for Get ''/x''))) = Some ps
             \<and> find_route ?st ?r (request_for Get ''/x'')
                 = Some \<lparr>handler = snd (snd ?e), params = ps\<rparr>)"
    by blast
  with pre have "\<exists>ps. match (fst (snd ?e)) (uri (request_line (request_for Get ''/x''))) = Some ps
             \<and> find_route ?st ?r (request_for Get ''/x'')
                 = Some \<lparr>handler = snd (snd ?e), params = ps\<rparr>"
    by blast
  with m have "find_route ?st ?r (request_for Get ''/x'')
                 = Some \<lparr>handler = returning not_found, params = Map.empty\<rparr>"
    by (auto simp: request_for_def)
  with get_x [of fragment_only] get_ax [of fragment_only] show ?thesis by blast
qed

subsection \<open>Dispatch\<close>

text \<open>
  C5 (as amended). \<open>handle\<close> returns a 404 response with a plain-text body when \<open>find\<close>
  yields no match. Otherwise it invokes the matched handler once: a response is passed on,
  and a thrown object derived from \<open>std::exception\<close> is caught and converted into a 500
  response whose body carries the text of \<open>what()\<close>. A thrown value of any other type is
  not caught and leaves \<open>handle\<close>. The state after \<open>handle\<close> is the state after that
  single invocation: nothing is retried.
\<close>

theorem handle_cases:
  "(find_route st r req = None
      \<longrightarrow> handle st r req w
          = (w, Returns \<lparr>status_code = 404, status_text = ''Not Found'',
                         resp_headers = [''Content-Type'' \<mapsto> ''text/plain''],
                         resp_body = ''Route not found''\<rparr>))
   \<and> (find_route st r req = Some m \<and> handler m req w = (w', Returns response)
      \<longrightarrow> handle st r req w = (w', Returns response))
   \<and> (find_route st r req = Some m \<and> handler m req w = (w', Throws (std_exception what))
      \<longrightarrow> handle st r req w
          = (w', Returns \<lparr>status_code = 500, status_text = ''Internal Server Error'',
                          resp_headers = [''Content-Type'' \<mapsto> ''text/plain''],
                          resp_body = ''Handler error: '' @ what\<rparr>))
   \<and> (find_route st r req = Some m \<and> handler m req w = (w', Throws other_value)
      \<longrightarrow> handle st r req w = (w', Throws other_value))"
  by (simp add: handle_def with_text_def not_found_def internal_server_error_def)

theorem handle_cases_witness:
  "handle [[], example_routes_a, example_routes_ab] \<lparr>routes = 2\<rparr> (request_for Get ''/zzz'') ()
     = ((), Returns \<lparr>status_code = 404, status_text = ''Not Found'',
                     resp_headers = [''Content-Type'' \<mapsto> ''text/plain''],
                     resp_body = ''Route not found''\<rparr>)
   \<and> handle [[], example_routes_a, example_routes_ab] \<lparr>routes = 2\<rparr> (request_for Get ''/a'') ()
     = ((), Returns ok)
   \<and> handle [[], example_routes_a, example_routes_ab] \<lparr>routes = 2\<rparr> (request_for Get ''/b'') ()
     = ((), Returns \<lparr>status_code = 500, status_text = ''Internal Server Error'',
                     resp_headers = [''Content-Type'' \<mapsto> ''text/plain''],
                     resp_body = ''Handler error: boom''\<rparr>)
   \<and> handle [[], example_routes_c] \<lparr>routes = 1\<rparr> (request_for Get ''/c'') ()
     = ((), Throws other_value)"
proof -
  let ?st = "[[], example_routes_a, example_routes_ab]"
  let ?r = "\<lparr>routes = 2\<rparr>"
  have n: "find_route ?st ?r (request_for Get ''/zzz'') = None"
    by (simp add: find_route_def example_routes_a_def example_routes_ab_def request_for_def
          match_def)
  have a: "find_route ?st ?r (request_for Get ''/a'')
           = Some \<lparr>handler = returning ok, params = Map.empty\<rparr>"
    by (simp add: find_route_def example_routes_a_def example_routes_ab_def request_for_def
          match_def)
  have b: "find_route ?st ?r (request_for Get ''/b'')
           = Some \<lparr>handler = throwing (std_exception ''boom''), params = Map.empty\<rparr>"
    by (simp add: find_route_def example_routes_a_def example_routes_ab_def request_for_def
          match_def)
  have c: "find_route [[], example_routes_c] \<lparr>routes = 1\<rparr> (request_for Get ''/c'')
           = Some \<lparr>handler = throwing other_value, params = Map.empty\<rparr>"
    by (simp add: find_route_def example_routes_c_def request_for_def match_def)
  have 1: "handle ?st ?r (request_for Get ''/zzz'') ()
     = ((), Returns \<lparr>status_code = 404, status_text = ''Not Found'',
                     resp_headers = [''Content-Type'' \<mapsto> ''text/plain''],
                     resp_body = ''Route not found''\<rparr>)"
    using handle_cases [of ?st ?r "request_for Get ''/zzz''" "()"] n by simp
  have 2: "handle ?st ?r (request_for Get ''/a'') () = ((), Returns ok)"
    using handle_cases [of ?st ?r "request_for Get ''/a''" "()"
                           "\<lparr>handler = returning ok, params = Map.empty\<rparr>" "()" ok] a
    by (simp add: returning_def)
  have 3: "handle ?st ?r (request_for Get ''/b'') ()
     = ((), Returns \<lparr>status_code = 500, status_text = ''Internal Server Error'',
                     resp_headers = [''Content-Type'' \<mapsto> ''text/plain''],
                     resp_body = ''Handler error: boom''\<rparr>)"
    using handle_cases [of ?st ?r "request_for Get ''/b''" "()"
                           "\<lparr>handler = throwing (std_exception ''boom''), params = Map.empty\<rparr>"
                           "()" ok "''boom''"] b
    by (simp add: throwing_def)
  have 4: "handle [[], example_routes_c] \<lparr>routes = 1\<rparr> (request_for Get ''/c'') ()
     = ((), Throws other_value)"
    using handle_cases [of "[[], example_routes_c]" "\<lparr>routes = 1\<rparr>" "request_for Get ''/c''" "()"
                           "\<lparr>handler = throwing other_value, params = Map.empty\<rparr>"
                           "()" ok "''boom''"] c
    by (simp add: throwing_def)
  from 1 2 3 4 show ?thesis by blast
qed

text \<open>
  C5 as stated fails: a handler that throws a value whose type is not derived from
  \<open>std::exception\<close> is not caught, and the throw leaves \<open>handle\<close>.
\<close>

theorem handle_propagates_counterexample:
  "get (std_regex fragment_only) [[]] \<lparr>routes = 0\<rparr> ''/c'' (throwing other_value)
     = Some ([[], example_routes_c], \<lparr>routes = 1\<rparr>)
   \<and> handle [[], example_routes_c] \<lparr>routes = 1\<rparr> (request_for Get ''/c'') ()
     = ((), Throws other_value)"
  by (simp add: get_c handle_def find_route_def example_routes_c_def request_for_def match_def
        throwing_def)

end
